theory Spec2Isabelle
  imports Complex_Main "HOL-Library.Word" "HOL-Library.AList"
begin

section \<open>Data model\<close>

text \<open>
  The three scripts \<^verbatim>\<open>composite.py\<close> (BestSignal), \<^verbatim>\<open>composite_best_server.py\<close>
  (AttributedBestServer) and \<^verbatim>\<open>composite_redundancy.py\<close> (OverlapConsensus) share the
  lookup-table loader, the canvas geometry and the per-layer placement; they differ in
  the merge step and in the final pass.

  Conventions of the embedding.
  \<^item> Python floats (dB values, degrees, pixels per degree) are real numbers: arithmetic
    and comparisons are exact, the non-numbers \<^verbatim>\<open>nan\<close> and \<^verbatim>\<open>inf\<close> are not values
    of the model, and the single-precision store into \<^verbatim>\<open>temp_loss\<close> and
    \<^verbatim>\<open>master_loss\<close> is taken as exact.
  \<^item> A \<^verbatim>\<open>uint8\<close> array cell is an \<open>8 word\<close>.
  \<^item> A two-dimensional numpy array is a function from row and column to the cell;
    its shape is kept beside it (\<open>master_h\<close>, \<open>master_w\<close>), and cells outside
    the shape are never written.
  \<^item> A Python \<^verbatim>\<open>str\<close> is a \<open>string\<close> whose characters are code points below 256.
  \<^item> The built-ins \<^verbatim>\<open>float()\<close> and \<^verbatim>\<open>int()\<close> on a string are parameters
    \<open>py_float\<close> and \<open>py_int\<close>; \<open>None\<close> is \<^verbatim>\<open>ValueError\<close>.
\<close>

type_synonym u8 = "8 word"
type_synonym rgb = "u8 \<times> u8 \<times> u8"
type_synonym rgba = "u8 \<times> u8 \<times> u8 \<times> u8"
type_synonym color = "int \<times> int \<times> int"
type_synonym 'a grid = "nat \<Rightarrow> nat \<Rightarrow> 'a"

definition UNDEFINED_PATH_LOSS :: real where
  "UNDEFINED_PATH_LOSS = 9999"

definition VALID_THRESHOLD_DB :: real where
  "VALID_THRESHOLD_DB = 150"

definition MIN_OVERLAP_COUNT :: int where
  "MIN_OVERLAP_COUNT = 2"

definition SERVER_PALETTE :: "rgb list" where
  "SERVER_PALETTE =
     [(255, 0, 0), (0, 0, 255), (0, 128, 0), (255, 165, 0), (128, 0, 128),
      (0, 255, 255), (255, 20, 147), (255, 255, 0), (139, 69, 19), (0, 0, 0)]"

datatype error =
    FileNotFoundError
  | NoLayers
  | ImageOpenError
  | ZeroDivisionError
  | NegativeDimensions

text \<open>
  \<open>color_map\<close> is the dict of the class: an association list in insertion order, where
  assigning to a key that is present replaces its value in place (\<open>AList.update\<close>).
  \<open>entries\<close> is the list the legend is drawn from.
\<close>

record ColorScale =
  color_map :: "(color \<times> real) list"
  entries :: "(real \<times> int \<times> int \<times> int) list"

text \<open>An opened raster: \<open>img_arr im y x\<close> is \<^verbatim>\<open>np.array(img.convert('RGB'))[y, x]\<close>.\<close>

record image =
  img_w :: nat
  img_h :: nat
  img_arr :: "rgb grid"

text \<open>
  A layer that \<^verbatim>\<open>MapLayer.__init__\<close> has built: its bounding box, and what
  \<^verbatim>\<open>Image.open(png_path)\<close> gives (\<open>None\<close> when it raises).
\<close>

record MapLayer =
  north :: real
  south :: real
  east :: real
  west :: real
  png :: "image option"

text \<open>The layer of \<^verbatim>\<open>composite_best_server.py\<close> has an ordinal and a palette colour.\<close>

record ServerLayer = MapLayer +
  index :: nat
  display_color :: rgb

record geometry =
  global_north :: real
  global_south :: real
  global_east :: real
  global_west :: real
  ppd_lat :: real
  ppd_lon :: real
  master_h :: nat
  master_w :: nat

text \<open>
  The part of a layer that is pasted: the first canvas row and column of the slice
  \<^verbatim>\<open>[y_start:y_end, x_start:x_end]\<close>, its shape, and the layer's pixels.
\<close>

record region =
  row0 :: nat
  col0 :: nat
  curr_h :: nat
  curr_w :: nat
  src_chunk :: "rgb grid"

record loss_canvas =
  master_loss :: "real grid"

record canvas = loss_canvas +
  master_rgba :: "rgba grid"

record overlap_canvas = canvas +
  coverage_count :: "u8 grid"

record server_canvas = loss_canvas +
  master_owner_id :: "u8 grid"

section \<open>ColorScale.load_lcf\<close>

text \<open>\<^verbatim>\<open>str.isspace\<close> and the class \<^verbatim>\<open>\s\<close> of a str pattern, on code points below 256.\<close>

definition isspace :: "char \<Rightarrow> bool" where
  "isspace c \<longleftrightarrow> c \<in> set [CHR 0x09, CHR 0x0A, CHR 0x0B, CHR 0x0C, CHR 0x0D,
     CHR 0x1C, CHR 0x1D, CHR 0x1E, CHR 0x1F, CHR 0x20, CHR 0x85, CHR 0xA0]"

definition strip :: "string \<Rightarrow> string" where
  "strip s = dropWhile isspace (rev (dropWhile isspace (rev s)))"

definition is_sep :: "char \<Rightarrow> bool" where
  "is_sep c \<longleftrightarrow> c = CHR '';'' \<or> c = CHR '':'' \<or> c = CHR '',''"

text \<open>
  \<^verbatim>\<open>re.split(r'[;:,]\s*', line)\<close>: every separator character starts a match, which
  also takes the white space after it.
\<close>

function re_split :: "string \<Rightarrow> string list" where
  "re_split [] = [[]]"
| "re_split (c # cs) =
     (if is_sep c then [] # re_split (dropWhile isspace cs)
      else (case re_split cs of
              [] \<Rightarrow> [[c]]
            | p # ps \<Rightarrow> (c # p) # ps))"
  by pat_completeness auto
termination
  by (relation "measure length") (auto simp: length_dropWhile_le less_Suc_eq_le)

text \<open>
  One pass of the loop body, up to the conversions: \<open>None\<close> when the line is skipped
  (blank, a comment, fewer than four parts, or a \<^verbatim>\<open>ValueError\<close>).
\<close>

definition parse_line ::
  "(string \<Rightarrow> real option) \<Rightarrow> (string \<Rightarrow> int option) \<Rightarrow> string
     \<Rightarrow> (real \<times> int \<times> int \<times> int) option" where
  "parse_line py_float py_int raw =
     (let line = strip raw in
      if line = [] \<or> take 1 line = ''#'' then None
      else
        let parts = re_split line in
        if length parts \<ge> 4 then
          (case py_float (parts ! 0) of
             None \<Rightarrow> None
           | Some db \<Rightarrow>
              (case py_int (parts ! 1) of
                 None \<Rightarrow> None
               | Some r \<Rightarrow>
                  (case py_int (parts ! 2) of
                     None \<Rightarrow> None
                   | Some g \<Rightarrow>
                      (case py_int (parts ! 3) of
                         None \<Rightarrow> None
                       | Some b \<Rightarrow> Some (db, r, g, b)))))
        else None)"

definition load_line ::
  "(string \<Rightarrow> real option) \<Rightarrow> (string \<Rightarrow> int option) \<Rightarrow> ColorScale \<Rightarrow> string
     \<Rightarrow> ColorScale" where
  "load_line py_float py_int cs raw =
     (case parse_line py_float py_int raw of
        None \<Rightarrow> cs
      | Some (db, r, g, b) \<Rightarrow>
          cs\<lparr>color_map := AList.update (r, g, b) db (color_map cs),
             entries := entries cs @ [(db, r, g, b)]\<rparr>)"

text \<open>
  The file is \<open>None\<close> when \<^verbatim>\<open>os.path.exists\<close> is false, otherwise its lines.
  The sort of \<open>entries\<close> by the dB value is stable, as \<^verbatim>\<open>list.sort\<close> is.
\<close>

definition load_lcf ::
  "(string \<Rightarrow> real option) \<Rightarrow> (string \<Rightarrow> int option) \<Rightarrow> string list option
     \<Rightarrow> error + ColorScale" where
  "load_lcf py_float py_int file =
     (case file of
        None \<Rightarrow> Inl FileNotFoundError
      | Some lines \<Rightarrow>
          (let cs = foldl (load_line py_float py_int) \<lparr>color_map = [], entries = []\<rparr> lines
           in Inr (cs\<lparr>entries := sort_key fst (entries cs)\<rparr>)))"

section \<open>Canvas geometry and placement\<close>

text \<open>\<^verbatim>\<open>int(x)\<close> on a float truncates towards zero.\<close>

definition py_int_of_float :: "real \<Rightarrow> int" where
  "py_int_of_float x = (if 0 \<le> x then \<lfloor>x\<rfloor> else \<lceil>x\<rceil>)"

text \<open>
  Lines 171 to 189 of \<^verbatim>\<open>composite.py\<close>: the early return on no layers, the union
  box, the reference layer's density and the canvas shape. Opening the reference
  raster and the two divisions are outside any \<^verbatim>\<open>try\<close>; \<^verbatim>\<open>np.full\<close> refuses a
  negative dimension.
\<close>

definition compute_geometry :: "'a MapLayer_scheme list \<Rightarrow> error + geometry" where
  "compute_geometry layers =
     (case layers of
        [] \<Rightarrow> Inl NoLayers
      | ref_layer # rest \<Rightarrow>
          (let gn = fold max (map north rest) (north ref_layer);
               gs = fold min (map south rest) (south ref_layer);
               ge = fold max (map east rest) (east ref_layer);
               gw = fold min (map west rest) (west ref_layer)
           in case png ref_layer of
                None \<Rightarrow> Inl ImageOpenError
              | Some img \<Rightarrow>
                  if north ref_layer - south ref_layer = 0 then Inl ZeroDivisionError
                  else if east ref_layer - west ref_layer = 0 then Inl ZeroDivisionError
                  else
                    (let pla = real (img_h img) / (north ref_layer - south ref_layer);
                         plo = real (img_w img) / (east ref_layer - west ref_layer);
                         mh = py_int_of_float ((gn - gs) * pla);
                         mw = py_int_of_float ((ge - gw) * plo)
                     in if mh < 0 \<or> mw < 0 then Inl NegativeDimensions
                        else Inr \<lparr>global_north = gn, global_south = gs,
                                  global_east = ge, global_west = gw,
                                  ppd_lat = pla, ppd_lon = plo,
                                  master_h = nat mh, master_w = nat mw\<rparr>)))"

text \<open>
  Where a slice bound \<open>i\<close> lands on an axis of length \<open>n\<close>: a negative bound counts from
  the end, and both ends are clamped.
\<close>

definition slice_bound :: "int \<Rightarrow> nat \<Rightarrow> nat" where
  "slice_bound i n = (if i < 0 then nat (max (i + int n) 0) else min (nat i) n)"

text \<open>
  Lines 195 to 207: the layer is skipped (\<open>None\<close>) when its raster does not open, when
  the computed overlap is empty, and when the canvas slice \<^verbatim>\<open>[y_start:y_end, x_start:x_end]\<close>
  has not the shape \<open>(curr_h, curr_w)\<close> of the chunk: the array operations of the merge
  then raise before anything is written, and the handler of the loop goes on with the
  next layer. With \<open>0 \<le> y_start\<close> and \<open>0 \<le> x_start\<close> the shapes always agree.
\<close>

definition overlap :: "geometry \<Rightarrow> 'a MapLayer_scheme \<Rightarrow> region option" where
  "overlap g layer =
     (case png layer of
        None \<Rightarrow> None
      | Some img \<Rightarrow>
          (let ys = py_int_of_float ((global_north g - north layer) * ppd_lat g);
               xs = py_int_of_float ((west layer - global_west g) * ppd_lon g);
               ye = min (ys + int (img_h img)) (int (master_h g));
               xe = min (xs + int (img_w img)) (int (master_w g));
               ch = ye - ys;
               cw = xe - xs
           in if ch \<le> 0 \<or> cw \<le> 0 then None
              else
                (let r0 = slice_bound ys (master_h g); r1 = slice_bound ye (master_h g);
                     c0 = slice_bound xs (master_w g); c1 = slice_bound xe (master_w g)
                 in if int (r1 - r0) \<noteq> ch \<or> int (c1 - c0) \<noteq> cw then None
                    else Some \<lparr>row0 = r0, col0 = c0,
                               curr_h = nat ch, curr_w = nat cw,
                               src_chunk = img_arr img\<rparr>)))"

definition in_region :: "region \<Rightarrow> nat \<Rightarrow> nat \<Rightarrow> bool" where
  "in_region rg y x \<longleftrightarrow>
     row0 rg \<le> y \<and> y < row0 rg + curr_h rg \<and> col0 rg \<le> x \<and> x < col0 rg + curr_w rg"

text \<open>The source pixel that lies on canvas cell \<open>(y, x)\<close> of the region.\<close>

definition src_at :: "region \<Rightarrow> nat \<Rightarrow> nat \<Rightarrow> rgb" where
  "src_at rg y x = src_chunk rg (y - row0 rg) (x - col0 rg)"

section \<open>Decoding colours\<close>

text \<open>
  Lines 208 to 212, at one pixel: \<open>temp_loss\<close> starts at the sentinel and every item of
  \<open>color_map\<close> whose key equals the pixel's three channels stores its value.
\<close>

definition matches :: "rgb \<Rightarrow> color \<Rightarrow> bool" where
  "matches px k \<longleftrightarrow>
     (case px of (pr, pg, pb) \<Rightarrow> case k of (r, g, b) \<Rightarrow> uint pr = r \<and> uint pg = g \<and> uint pb = b)"

definition decode :: "(color \<times> real) list \<Rightarrow> rgb \<Rightarrow> real" where
  "decode cmap px =
     foldl (\<lambda>t item. if matches px (fst item) then snd item else t) UNDEFINED_PATH_LOSS cmap"

definition opaque :: "rgb \<Rightarrow> rgba" where
  "opaque px = (case px of (r, g, b) \<Rightarrow> (r, g, b, 255))"

definition transparent :: rgba where
  "transparent = (0, 0, 0, 0)"

section \<open>BestSignal: composite.py\<close>

text \<open>Lines 214 to 225: the update mask, the new best values and the new visual.\<close>

definition merge_layer ::
  "(color \<times> real) list \<Rightarrow> geometry \<Rightarrow> canvas \<Rightarrow> 'a MapLayer_scheme \<Rightarrow> canvas" where
  "merge_layer cmap g c layer =
     (case overlap g layer of
        None \<Rightarrow> c
      | Some rg \<Rightarrow>
          (let temp_loss = (\<lambda>y x. decode cmap (src_at rg y x));
               update_mask = (\<lambda>y x. in_region rg y x \<and> temp_loss y x < master_loss c y x
                                 \<and> temp_loss y x \<noteq> UNDEFINED_PATH_LOSS)
           in c\<lparr>master_loss := (\<lambda>y x. if update_mask y x then temp_loss y x
                                       else master_loss c y x),
                 master_rgba := (\<lambda>y x. if update_mask y x then opaque (src_at rg y x)
                                       else master_rgba c y x)\<rparr>))"

definition empty_canvas :: canvas where
  "empty_canvas =
     \<lparr>master_loss = (\<lambda>y x. UNDEFINED_PATH_LOSS), master_rgba = (\<lambda>y x. transparent)\<rparr>"



section \<open>AttributedBestServer: composite_best_server.py\<close>

text \<open>
  Lines 213 to 224. The owner grid is \<^verbatim>\<open>uint8\<close>: the layer's ordinal is stored
  modulo 256.
\<close>

definition merge_layer_best_server ::
  "(color \<times> real) list \<Rightarrow> geometry \<Rightarrow> server_canvas \<Rightarrow> ServerLayer \<Rightarrow> server_canvas" where
  "merge_layer_best_server cmap g c layer =
     (case overlap g layer of
        None \<Rightarrow> c
      | Some rg \<Rightarrow>
          (let temp_loss = (\<lambda>y x. decode cmap (src_at rg y x));
               better_mask = (\<lambda>y x. in_region rg y x \<and> temp_loss y x < master_loss c y x
                                 \<and> temp_loss y x \<le> VALID_THRESHOLD_DB)
           in c\<lparr>master_loss := (\<lambda>y x. if better_mask y x then temp_loss y x
                                       else master_loss c y x),
                 master_owner_id := (\<lambda>y x. if better_mask y x then word_of_nat (index layer)
                                           else master_owner_id c y x)\<rparr>))"

definition empty_server_canvas :: server_canvas where
  "empty_server_canvas =
     \<lparr>master_loss = (\<lambda>y x. UNDEFINED_PATH_LOSS), master_owner_id = (\<lambda>y x. 0)\<rparr>"


text \<open>
  Lines 158 to 167: the layers that load get the ordinals 1, 2, ... and the palette
  colours in turn.
\<close>

definition assign_servers :: "MapLayer list \<Rightarrow> ServerLayer list" where
  "assign_servers ls =
     map (\<lambda>(idx_counter, l).
            \<lparr>north = north l, south = south l, east = east l, west = west l, png = png l,
             index = idx_counter + 1,
             display_color = SERVER_PALETTE ! (idx_counter mod length SERVER_PALETTE)\<rparr>)
         (enumerate 0 ls)"



section \<open>OverlapConsensus: composite_redundancy.py\<close>

text \<open>Lines 200 to 225: the vote, then the BestSignal update gated by the threshold.\<close>

definition merge_layer_redundancy ::
  "(color \<times> real) list \<Rightarrow> geometry \<Rightarrow> overlap_canvas \<Rightarrow> 'a MapLayer_scheme
     \<Rightarrow> overlap_canvas" where
  "merge_layer_redundancy cmap g c layer =
     (case overlap g layer of
        None \<Rightarrow> c
      | Some rg \<Rightarrow>
          (let temp_loss = (\<lambda>y x. decode cmap (src_at rg y x));
               valid_signal_mask =
                 (\<lambda>y x. in_region rg y x \<and> temp_loss y x \<le> VALID_THRESHOLD_DB);
               better_signal_mask =
                 (\<lambda>y x. temp_loss y x < master_loss c y x \<and> valid_signal_mask y x)
           in c\<lparr>coverage_count := (\<lambda>y x. if valid_signal_mask y x then coverage_count c y x + 1
                                          else coverage_count c y x),
                 master_loss := (\<lambda>y x. if better_signal_mask y x then temp_loss y x
                                       else master_loss c y x),
                 master_rgba := (\<lambda>y x. if better_signal_mask y x then opaque (src_at rg y x)
                                       else master_rgba c y x)\<rparr>))"

definition empty_overlap_canvas :: overlap_canvas where
  "empty_overlap_canvas =
     \<lparr>master_loss = (\<lambda>y x. UNDEFINED_PATH_LOSS), master_rgba = (\<lambda>y x. transparent),
      coverage_count = (\<lambda>y x. 0)\<rparr>"

text \<open>Lines 234 to 237: the final filter.\<close>

definition overlap_filter :: "overlap_canvas \<Rightarrow> overlap_canvas" where
  "overlap_filter c =
     c\<lparr>master_rgba := (\<lambda>y x. if uint (coverage_count c y x) < MIN_OVERLAP_COUNT then transparent
                             else master_rgba c y x)\<rparr>"

definition composite_redundancy ::
  "(color \<times> real) list \<Rightarrow> 'a MapLayer_scheme list \<Rightarrow> error + geometry \<times> overlap_canvas" where
  "composite_redundancy cmap layers =
     (case compute_geometry layers of
        Inl e \<Rightarrow> Inl e
      | Inr g \<Rightarrow>
          Inr (g, overlap_filter (foldl (merge_layer_redundancy cmap g) empty_overlap_canvas layers)))"


section \<open>What one canvas cell sees\<close>

text \<open>
  \<open>pixel_from g layer y x\<close> is the layer's pixel that is pasted on canvas cell
  \<open>(y, x)\<close>, if the layer covers the cell; \<open>seen\<close> lists, in processing order, the
  layers that cover a cell, each with its decoded value and its pixel.
\<close>

definition pixel_from :: "geometry \<Rightarrow> 'a MapLayer_scheme \<Rightarrow> nat \<Rightarrow> nat \<Rightarrow> rgb option" where
  "pixel_from g layer y x =
     (case overlap g layer of
        None \<Rightarrow> None
      | Some rg \<Rightarrow> if in_region rg y x then Some (src_at rg y x) else None)"

definition seen ::
  "(color \<times> real) list \<Rightarrow> geometry \<Rightarrow> 'a MapLayer_scheme list \<Rightarrow> nat \<Rightarrow> nat
     \<Rightarrow> (real \<times> rgb \<times> 'a MapLayer_scheme) list" where
  "seen cmap g layers y x =
     List.map_filter
       (\<lambda>l. map_option (\<lambda>p. (decode cmap p, p, l)) (pixel_from g l y x)) layers"

text \<open>The three merge rules at one cell, on what the cell holds and what a layer brings.\<close>

definition cell_best :: "real \<times> rgba \<Rightarrow> real \<times> rgb \<times> 'a \<Rightarrow> real \<times> rgba" where
  "cell_best cur new =
     (case cur of (v, vis) \<Rightarrow> case new of (t, p, l) \<Rightarrow>
        if t < v \<and> t \<noteq> UNDEFINED_PATH_LOSS then (t, opaque p) else (v, vis))"

definition cell_server :: "real \<times> u8 \<Rightarrow> real \<times> rgb \<times> ServerLayer \<Rightarrow> real \<times> u8" where
  "cell_server cur new =
     (case cur of (v, own) \<Rightarrow> case new of (t, p, l) \<Rightarrow>
        if t < v \<and> t \<le> VALID_THRESHOLD_DB then (t, word_of_nat (index l)) else (v, own))"

definition cell_overlap :: "real \<times> rgba \<times> u8 \<Rightarrow> real \<times> rgb \<times> 'a \<Rightarrow> real \<times> rgba \<times> u8" where
  "cell_overlap cur new =
     (case cur of (v, vis, n) \<Rightarrow> case new of (t, p, l) \<Rightarrow>
        (let n' = (if t \<le> VALID_THRESHOLD_DB then n + 1 else n)
         in if t < v \<and> t \<le> VALID_THRESHOLD_DB then (t, opaque p, n') else (v, vis, n')))"

section \<open>Notions used to state the properties\<close>

text \<open>The dict key that a pixel's three channels are compared with.\<close>

definition key_of :: "rgb \<Rightarrow> color" where
  "key_of px = (case px of (r, g, b) \<Rightarrow> (uint r, uint g, uint b))"

text \<open>The lines of a file that pass the loop body, in file order, and the colour of an entry.\<close>

definition parsed ::
  "(string \<Rightarrow> real option) \<Rightarrow> (string \<Rightarrow> int option) \<Rightarrow> string list
     \<Rightarrow> (real \<times> int \<times> int \<times> int) list" where
  "parsed py_float py_int lines = List.map_filter (parse_line py_float py_int) lines"

definition color_of :: "real \<times> int \<times> int \<times> int \<Rightarrow> color" where
  "color_of e = (case e of (db, r, g, b) \<Rightarrow> (r, g, b))"

text \<open>
  Stand-ins for \<^verbatim>\<open>float()\<close> and \<^verbatim>\<open>int()\<close> on the strings of the examples below; every
  other string is a \<^verbatim>\<open>ValueError\<close>.
\<close>

definition float_table :: "string \<Rightarrow> real option" where
  "float_table =
     map_of [(''120.0'', 120), (''80.0'', 80), (''100.0'', 100), (''90.0'', 90),
             (''140.0'', 140), (''160.0'', 160), (''10000.0'', 10000)]"

definition int_table :: "string \<Rightarrow> int option" where
  "int_table = map_of [(''0'', 0), (''1'', 1), (''2'', 2), (''3'', 3), (''255'', 255)]"

text \<open>How many of the layers that a cell sees meet the validity threshold there.\<close>

definition votes :: "(real \<times> rgb \<times> 'a) list \<Rightarrow> nat" where
  "votes hs = length (filter (\<lambda>h. fst h \<le> VALID_THRESHOLD_DB) hs)"

text \<open>
  Example inputs: a lookup table, rasters of one colour, a layer of 2 by 2 pixels on the
  box from 0 to 1 degree in both directions, and the geometry of any number of such
  layers.
\<close>

definition example_lut :: "(color \<times> real) list" where
  "example_lut =
     [((255, 0, 0), 90), ((0, 255, 0), 140), ((0, 0, 255), 160), ((9, 9, 9), 100),
      ((8, 8, 8), 100), ((1, 2, 3), 10000)]"

definition solid_image :: "nat \<Rightarrow> nat \<Rightarrow> rgb \<Rightarrow> image" where
  "solid_image w h px = \<lparr>img_w = w, img_h = h, img_arr = (\<lambda>y x. px)\<rparr>"

definition solid_layer :: "rgb \<Rightarrow> MapLayer" where
  "solid_layer px =
     \<lparr>north = 1, south = 0, east = 1, west = 0, png = Some (solid_image 2 2 px)\<rparr>"

definition unit_geometry :: geometry where
  "unit_geometry =
     \<lparr>global_north = 1, global_south = 0, global_east = 1, global_west = 0,
      ppd_lat = 2, ppd_lon = 2, master_h = 2, master_w = 2\<rparr>"


text \<open>A layer (of either script) that lies on that box with a raster of the colour \<open>px\<close>.\<close>

definition unit_box :: "'a MapLayer_scheme \<Rightarrow> rgb \<Rightarrow> bool" where
  "unit_box l px \<longleftrightarrow>
     north l = 1 \<and> south l = 0 \<and> east l = 1 \<and> west l = 0 \<and> png l = Some (solid_image 2 2 px)"




section \<open>Decoding and loading: lemmas\<close>

lemma matches_key_of: "matches px k \<longleftrightarrow> key_of px = k"
  by (auto simp: matches_def key_of_def split: prod.splits)

lemma decode_snoc:
  "decode (cmap @ [item]) px = (if matches px (fst item) then snd item else decode cmap px)"
  by (simp add: decode_def)

lemma decode_Nil: "decode [] px = UNDEFINED_PATH_LOSS"
  by (simp add: decode_def)

lemma decode_absent:
  "\<forall>k \<in> fst ` set cmap. \<not> matches px k \<Longrightarrow> decode cmap px = UNDEFINED_PATH_LOSS"
  by (induction cmap rule: rev_induct) (auto simp: decode_snoc decode_Nil)

lemma decode_map_of:
  "distinct (map fst cmap) \<Longrightarrow>
     decode cmap px = (case map_of cmap (key_of px) of None \<Rightarrow> UNDEFINED_PATH_LOSS | Some db \<Rightarrow> db)"
proof (induction cmap rule: rev_induct)
  case Nil
  then show ?case by (simp add: decode_Nil)
next
  case (snoc item cmap)
  then have d: "distinct (map fst cmap)" and nin: "fst item \<notin> fst ` set cmap"
    by auto
  show ?case
  proof (cases "matches px (fst item)")
    case True
    then have k: "key_of px = fst item" by (simp add: matches_key_of)
    with nin have "map_of cmap (key_of px) = None"
      by (simp add: map_of_eq_None_iff)
    with True k show ?thesis
      by (cases item) (simp add: decode_snoc map_add_def)
  next
    case False
    then have "key_of px \<noteq> fst item" by (simp add: matches_key_of)
    with False snoc.IH [OF d] show ?thesis
      by (cases item) (auto simp: decode_snoc map_add_def split: option.splits)
  qed
qed

lemma parsed_snoc:
  "parsed pf pn (ls @ [l]) = parsed pf pn ls @ (case parse_line pf pn l of None \<Rightarrow> [] | Some e \<Rightarrow> [e])"
  by (simp add: parsed_def map_filter_def split: option.splits)

lemma load_line_None: "parse_line pf pn l = None \<Longrightarrow> load_line pf pn cs l = cs"
  by (simp add: load_line_def)

lemma load_line_Some:
  "parse_line pf pn l = Some (db, r, g, b) \<Longrightarrow>
     load_line pf pn cs l = cs\<lparr>color_map := AList.update (r, g, b) db (color_map cs),
                                entries := entries cs @ [(db, r, g, b)]\<rparr>"
  by (simp add: load_line_def)

lemma foldl_load_line_entries:
  "entries (foldl (load_line pf pn) cs ls) = entries cs @ parsed pf pn ls"
proof (induction ls rule: rev_induct)
  case Nil
  then show ?case by (simp add: parsed_def map_filter_def)
next
  case (snoc l ls)
  then show ?case
    by (cases "parse_line pf pn l") (auto simp: parsed_snoc load_line_None load_line_Some)
qed

lemma foldl_load_line_distinct:
  "distinct (map fst (color_map cs)) \<Longrightarrow> distinct (map fst (color_map (foldl (load_line pf pn) cs ls)))"
proof (induction ls rule: rev_induct)
  case Nil
  then show ?case by simp
next
  case (snoc l ls)
  then show ?case
    by (cases "parse_line pf pn l") (auto simp: load_line_None load_line_Some distinct_update)
qed

lemma foldl_load_line_map_of:
  "map_of (color_map (foldl (load_line pf pn) cs ls))
     = map_of (color_map cs) ++ map_of (rev (map (\<lambda>e. (color_of e, fst e)) (parsed pf pn ls)))"
proof (induction ls rule: rev_induct)
  case Nil
  then show ?case by (simp add: parsed_def map_filter_def)
next
  case (snoc l ls)
  show ?case
  proof (cases "parse_line pf pn l")
    case None
    with snoc show ?thesis by (simp add: parsed_snoc load_line_None)
  next
    case (Some e)
    obtain db r g b where e: "e = (db, r, g, b)" by (cases e) auto
    from Some snoc e show ?thesis
      by (auto simp: parsed_snoc load_line_Some update_conv' color_of_def map_add_def fun_eq_iff)
  qed
qed

lemma map_of_rev_last:
  assumes "k \<notin> fst ` set post"
  shows "map_of (rev (pre @ (k, v) # post)) k = Some v"
proof -
  from assms have "map_of (rev post) k = None"
    by (simp add: map_of_eq_None_iff)
  then show ?thesis by (simp add: map_add_def)
qed

lemma dom_load: "fst ` set (color_map (foldl (load_line pf pn) cs ls)) = fst ` set (color_map cs) \<union> color_of ` set (parsed pf pn ls)"
proof -
  have "dom (map_of (color_map (foldl (load_line pf pn) cs ls))) = dom (map_of (color_map cs)) \<union> dom (map_of (rev (map (\<lambda>e. (color_of e, fst e)) (parsed pf pn ls))))"
    by (simp add: foldl_load_line_map_of Un_commute)
  then show ?thesis
    by (simp add: dom_map_of_conv_image_fst image_image)
qed

lemma load_lcf_Some:
  "load_lcf pf pn (Some lines) = Inr cs \<longleftrightarrow>
     cs = \<lparr>color_map = color_map (foldl (load_line pf pn) \<lparr>color_map = [], entries = []\<rparr> lines),
           entries = sort_key fst (parsed pf pn lines)\<rparr>"
  by (auto simp: load_lcf_def Let_def foldl_load_line_entries)

section \<open>The lookup table\<close>




text \<open>
  C6 (as amended). After loading, \<open>color_map\<close> has exactly one item for each distinct
  colour of the valid lines, a colour that is on several valid lines has the value of
  the last of them, in the dict and in what a pixel of that colour decodes to, and
  \<open>entries\<close> has one entry for every valid line (not one for every colour).
\<close>

theorem load_lcf_last_wins:
  assumes "load_lcf pf pn (Some lines) = Inr cs"
  shows "distinct (map fst (color_map cs))
    \<and> fst ` set (color_map cs) = color_of ` set (parsed pf pn lines)
    \<and> length (color_map cs) = card (color_of ` set (parsed pf pn lines))
    \<and> (\<forall>pre db r g b post.
          parsed pf pn lines = pre @ (db, r, g, b) # post \<and> (r, g, b) \<notin> color_of ` set post
          \<longrightarrow> map_of (color_map cs) (r, g, b) = Some db
              \<and> (\<forall>px. key_of px = (r, g, b) \<longrightarrow> decode (color_map cs) px = db))
    \<and> length (entries cs) = length (parsed pf pn lines)
    \<and> set (entries cs) = set (parsed pf pn lines)"
proof -
  let ?cs0 = "\<lparr>color_map = [], entries = []\<rparr>"
  let ?m = "color_map (foldl (load_line pf pn) ?cs0 lines)"
  from assms have cm: "color_map cs = ?m"
    and en: "entries cs = sort_key fst (parsed pf pn lines)"
    by (simp_all add: load_lcf_Some)
  have d: "distinct (map fst (color_map cs))"
    unfolding cm by (rule foldl_load_line_distinct) simp
  have k: "fst ` set (color_map cs) = color_of ` set (parsed pf pn lines)"
    unfolding cm by (simp add: dom_load)
  have n: "length (color_map cs) = card (color_of ` set (parsed pf pn lines))"
  proof -
    have "length (color_map cs) = card (set (map fst (color_map cs)))"
      using d by (simp add: distinct_card del: set_map)
    then show ?thesis using k by simp
  qed
  have l: "map_of (color_map cs) (r, g, b) = Some db
           \<and> (\<forall>px. key_of px = (r, g, b) \<longrightarrow> decode (color_map cs) px = db)"
    if p: "parsed pf pn lines = pre @ (db, r, g, b) # post"
      and q: "(r, g, b) \<notin> color_of ` set post"
    for pre db r g b post
  proof -
    have "map_of (color_map cs) (r, g, b) =
            map_of (rev (map (\<lambda>e. (color_of e, fst e)) (parsed pf pn lines))) (r, g, b)"
      unfolding cm by (simp add: foldl_load_line_map_of)
    also have "\<dots> = map_of (rev (map (\<lambda>e. (color_of e, fst e)) pre
                          @ ((r, g, b), db) # map (\<lambda>e. (color_of e, fst e)) post)) (r, g, b)"
      by (simp add: p color_of_def)
    also have "\<dots> = Some db"
      using q by (intro map_of_rev_last) (simp add: image_image)
    finally have m: "map_of (color_map cs) (r, g, b) = Some db" .
    then show ?thesis by (simp add: decode_map_of [OF d])
  qed
  from d k n l en show ?thesis by simp
qed

theorem load_lcf_last_wins_witness:
  "load_lcf float_table int_table (Some [''100.0,1,2,3'', ''80.0;0;0;1'', ''120.0,1,2,3'']) =
     Inr \<lparr>color_map = [((1, 2, 3), 120), ((0, 0, 1), 80)],
          entries = [(80, 0, 0, 1), (100, 1, 2, 3), (120, 1, 2, 3)]\<rparr>
   \<and> parsed float_table int_table [''100.0,1,2,3'', ''80.0;0;0;1'', ''120.0,1,2,3''] =
       [(100, 1, 2, 3), (80, 0, 0, 1)] @ (120, 1, 2, 3) # []
   \<and> decode [((1, 2, 3), 120), ((0, 0, 1), 80)] (1, 2, 3) = 120"
proof -
  let ?ls = "[''100.0,1,2,3'', ''80.0;0;0;1'', ''120.0,1,2,3'']"
  let ?cs = "\<lparr>color_map = [((1, 2, 3), 120), ((0, 0, 1), 80)],
              entries = [(80, 0, 0, 1), (100, 1, 2, 3), (120 :: real, 1 :: int, 2 :: int, 3 :: int)]\<rparr>"
  have h: "load_lcf float_table int_table (Some ?ls) = Inr ?cs"
    by (simp add: load_lcf_def load_line_def parse_line_def strip_def is_sep_def isspace_def
        float_table_def int_table_def)
  have p: "parsed float_table int_table ?ls = [(100, 1, 2, 3), (80, 0, 0, 1)] @ (120, 1, 2, 3) # []"
    by (simp add: parsed_def map_filter_def parse_line_def strip_def is_sep_def isspace_def
        float_table_def int_table_def)
  have k: "key_of (1, 2, 3) = (1, 2, 3)"
    by (simp add: key_of_def)
  have "\<forall>pre db r g b post.
          parsed float_table int_table ?ls = pre @ (db, r, g, b) # post
          \<and> (r, g, b) \<notin> color_of ` set post
          \<longrightarrow> map_of (color_map ?cs) (r, g, b) = Some db
              \<and> (\<forall>px. key_of px = (r, g, b) \<longrightarrow> decode (color_map ?cs) px = db)"
    using load_lcf_last_wins [OF h] by blast
  from this [rule_format, of "[(100, 1, 2, 3), (80, 0, 0, 1)]" 120 1 2 3 "[]",
      THEN conjunct2, rule_format, of "(1, 2, 3)"] p k
  have "decode (color_map ?cs) (1, 2, 3) = 120"
    by simp
  with h p show ?thesis by simp
qed

text \<open>
  C6 as stated fails for \<open>entries\<close>: two valid lines with the colour (1, 2, 3) leave one
  item in \<open>color_map\<close> and two entries in \<open>entries\<close>.
\<close>

theorem load_lcf_entries_counterexample:
  "load_lcf float_table int_table (Some [''100.0,1,2,3'', ''120.0,1,2,3'']) =
     Inr \<lparr>color_map = [((1, 2, 3), 120)], entries = [(100, 1, 2, 3), (120, 1, 2, 3)]\<rparr>"
  by (simp add: load_lcf_def load_line_def parse_line_def strip_def is_sep_def isspace_def
      float_table_def int_table_def)



section \<open>Placement: lemmas\<close>

text \<open>
  With starts that are not negative and an overlap that is not empty, the canvas slice
  has the shape of the chunk and begins at \<open>(y_start, x_start)\<close>.
\<close>

lemma overlap_regular:
  assumes "png layer = Some img"
    and "ys = py_int_of_float ((global_north g - north layer) * ppd_lat g)"
    and "xs = py_int_of_float ((west layer - global_west g) * ppd_lon g)"
    and "0 \<le> ys" and "0 \<le> xs"
    and "ys < min (ys + int (img_h img)) (int (master_h g))"
    and "xs < min (xs + int (img_w img)) (int (master_w g))"
  shows "overlap g layer =
     Some \<lparr>row0 = nat ys, col0 = nat xs,
           curr_h = nat (min (ys + int (img_h img)) (int (master_h g)) - ys),
           curr_w = nat (min (xs + int (img_w img)) (int (master_w g)) - xs),
           src_chunk = img_arr img\<rparr>"
proof -
  let ?ye = "min (ys + int (img_h img)) (int (master_h g))"
  let ?xe = "min (xs + int (img_w img)) (int (master_w g))"
  have b: "int (slice_bound e n - slice_bound s n) = e - s \<and> slice_bound s n = nat s"
    if "0 \<le> s" and "s < e" and "e \<le> int n" for s e :: int and n :: nat
    using that by (simp add: slice_bound_def min_def) linarith
  have ye: "?ye \<le> int (master_h g)" and xe: "?xe \<le> int (master_w g)"
    by simp_all
  from b [OF assms(4) assms(6) ye]
  have r: "int (slice_bound ?ye (master_h g) - slice_bound ys (master_h g)) = ?ye - ys"
    and r0: "slice_bound ys (master_h g) = nat ys"
    by blast+
  from b [OF assms(5) assms(7) xe]
  have c: "int (slice_bound ?xe (master_w g) - slice_bound xs (master_w g)) = ?xe - xs"
    and c0: "slice_bound xs (master_w g) = nat xs"
    by blast+
  show ?thesis
    unfolding overlap_def assms(1) option.case Let_def assms(2) [symmetric] assms(3) [symmetric]
    using assms(6,7) r c r0 c0 by (auto simp: min_def)
qed

section \<open>One cell of the canvas: lemmas\<close>

lemma seen_Nil: "seen cmap g [] y x = []"
  by (simp add: seen_def map_filter_def)

lemma seen_Cons:
  "seen cmap g (l # ls) y x =
     (case pixel_from g l y x of
        None \<Rightarrow> seen cmap g ls y x
      | Some p \<Rightarrow> (decode cmap p, p, l) # seen cmap g ls y x)"
  by (simp add: seen_def map_filter_def split: option.splits)

lemma merge_layer_cell:
  "(master_loss (merge_layer cmap g c l) y x, master_rgba (merge_layer cmap g c l) y x) =
     (case pixel_from g l y x of
        None \<Rightarrow> (master_loss c y x, master_rgba c y x)
      | Some p \<Rightarrow> cell_best (master_loss c y x, master_rgba c y x) (decode cmap p, p, l))"
  by (simp add: merge_layer_def pixel_from_def cell_best_def Let_def split: option.splits)


lemma merge_layer_best_server_cell:
  "(master_loss (merge_layer_best_server cmap g c l) y x,
    master_owner_id (merge_layer_best_server cmap g c l) y x) =
     (case pixel_from g l y x of
        None \<Rightarrow> (master_loss c y x, master_owner_id c y x)
      | Some p \<Rightarrow> cell_server (master_loss c y x, master_owner_id c y x) (decode cmap p, p, l))"
  by (simp add: merge_layer_best_server_def pixel_from_def cell_server_def Let_def
      split: option.splits)


lemma merge_layer_redundancy_cell:
  "(master_loss (merge_layer_redundancy cmap g c l) y x,
    master_rgba (merge_layer_redundancy cmap g c l) y x,
    coverage_count (merge_layer_redundancy cmap g c l) y x) =
     (case pixel_from g l y x of
        None \<Rightarrow> (master_loss c y x, master_rgba c y x, coverage_count c y x)
      | Some p \<Rightarrow> cell_overlap (master_loss c y x, master_rgba c y x, coverage_count c y x)
                    (decode cmap p, p, l))"
  by (simp add: merge_layer_redundancy_def pixel_from_def cell_overlap_def Let_def
      split: option.splits)

lemma foldl_merge_layer_redundancy_cell:
  "(master_loss (foldl (merge_layer_redundancy cmap g) c ls) y x,
    master_rgba (foldl (merge_layer_redundancy cmap g) c ls) y x,
    coverage_count (foldl (merge_layer_redundancy cmap g) c ls) y x) =
     foldl cell_overlap (master_loss c y x, master_rgba c y x, coverage_count c y x)
       (seen cmap g ls y x)"
proof (induction ls arbitrary: c)
  case Nil
  then show ?case by (simp add: seen_Nil)
next
  case (Cons l ls)
  show ?case
    using Cons.IH [of "merge_layer_redundancy cmap g c l"]
      merge_layer_redundancy_cell [of cmap g c l y x]
    by (simp add: seen_Cons split: option.splits)
qed

lemma cell_best_step:
  "cell_best (v, vis) (t, p, l) =
     (if t < v \<and> t \<noteq> UNDEFINED_PATH_LOSS then (t, opaque p) else (v, vis))"
  by (simp add: cell_best_def)

lemma cell_server_step:
  "cell_server (v, own) (t, p, l) =
     (if t < v \<and> t \<le> VALID_THRESHOLD_DB then (t, word_of_nat (index l)) else (v, own))"
  by (simp add: cell_server_def)

lemma cell_overlap_step:
  "cell_overlap (v, vis, n) (t, p, l) =
     (if t < v \<and> t \<le> VALID_THRESHOLD_DB then (t, opaque p, n + 1)
      else (v, vis, if t \<le> VALID_THRESHOLD_DB then n + 1 else n))"
  by (simp add: cell_overlap_def Let_def)

lemma foldl_cell_overlap_count:
  "snd (snd (foldl cell_overlap (v, vis, n) hs)) = n + word_of_nat (votes hs)"
proof (induction hs arbitrary: v vis n)
  case Nil
  then show ?case by (simp add: votes_def)
next
  case (Cons h hs)
  obtain t p l where h: "h = (t, p, l)" by (cases h) auto
  show ?case
    by (simp add: h cell_overlap_step Cons.IH votes_def)
qed






section \<open>The example layers: lemmas\<close>

lemma fold_max_const: "\<forall>v \<in> set vs. v = a \<Longrightarrow> fold max vs (a :: real) = a"
  by (induction vs) simp_all

lemma fold_min_const: "\<forall>v \<in> set vs. v = a \<Longrightarrow> fold min vs (a :: real) = a"
  by (induction vs) simp_all

lemma compute_geometry_unit:
  assumes "ls \<noteq> []" and "\<forall>l \<in> set ls. \<exists>px. unit_box l px"
  shows "compute_geometry ls = Inr unit_geometry"
proof -
  from assms obtain r rest where ls: "ls = r # rest" by (cases ls) auto
  from assms ls obtain px where r: "unit_box r px" by auto
  from assms ls have rest: "\<forall>l \<in> set rest. \<exists>px. unit_box l px" by simp
  have n: "fold max (map north rest) 1 = 1"
    using rest by (intro fold_max_const) (auto simp: unit_box_def)
  have s: "fold min (map south rest) 0 = 0"
    using rest by (intro fold_min_const) (auto simp: unit_box_def)
  have e: "fold max (map east rest) 1 = 1"
    using rest by (intro fold_max_const) (auto simp: unit_box_def)
  have w: "fold min (map west rest) 0 = 0"
    using rest by (intro fold_min_const) (auto simp: unit_box_def)
  from r n s e w show ?thesis
    by (simp add: ls compute_geometry_def unit_box_def solid_image_def py_int_of_float_def
        unit_geometry_def)
qed

lemma pixel_from_unit:
  "unit_box l px \<Longrightarrow> pixel_from unit_geometry l y x = (if y < 2 \<and> x < 2 then Some px else None)"
  by (auto simp: pixel_from_def overlap_def unit_box_def unit_geometry_def solid_image_def
      py_int_of_float_def slice_bound_def in_region_def src_at_def Let_def)


lemma seen_unit:
  "\<forall>l \<in> set ls. unit_box l (f l) \<Longrightarrow>
     seen cmap unit_geometry ls 0 0 = map (\<lambda>l. (decode cmap (f l), f l, l)) ls"
proof (induction ls)
  case Nil
  then show ?case by (simp add: seen_Nil)
next
  case (Cons l ls)
  then have "pixel_from unit_geometry l 0 0 = Some (f l)"
    by (simp add: pixel_from_unit [of l "f l"])
  with Cons show ?case by (simp add: seen_Cons)
qed

lemma unit_box_solid_layer: "unit_box (solid_layer px) px"
  by (simp add: unit_box_def solid_layer_def)

lemma decode_example_lut:
  "decode example_lut (255, 0, 0) = 90"
  "decode example_lut (0, 255, 0) = 140"
  "decode example_lut (0, 0, 255) = 160"
  "decode example_lut (9, 9, 9) = 100"
  "decode example_lut (8, 8, 8) = 100"
  "decode example_lut (1, 2, 3) = 10000"
  "decode example_lut (7, 7, 7) = UNDEFINED_PATH_LOSS"
  by (simp_all add: decode_def example_lut_def matches_def)

section \<open>The merge rules\<close>




lemma decode_absent_key:
  "key_of p \<notin> fst ` set cmap \<Longrightarrow> decode cmap p = UNDEFINED_PATH_LOSS"
  by (rule decode_absent) (auto simp: matches_key_of)

text \<open>
  C2. A pixel whose colour is not a key of the lookup table decodes to the sentinel, and
  in each of the three scripts the cell it is pasted on keeps its best value, its
  visual, its owner and its overlap count.
\<close>

theorem absent_color_never_wins:
  assumes "key_of p \<notin> fst ` set cmap"
  shows "decode cmap p = UNDEFINED_PATH_LOSS
    \<and> (pixel_from g l y x = Some p \<longrightarrow>
          master_loss (merge_layer cmap g c l) y x = master_loss c y x
        \<and> master_rgba (merge_layer cmap g c l) y x = master_rgba c y x
        \<and> master_loss (merge_layer_redundancy cmap g oc l) y x = master_loss oc y x
        \<and> master_rgba (merge_layer_redundancy cmap g oc l) y x = master_rgba oc y x
        \<and> coverage_count (merge_layer_redundancy cmap g oc l) y x = coverage_count oc y x)
    \<and> (pixel_from g sl y x = Some p \<longrightarrow>
          master_loss (merge_layer_best_server cmap g sc sl) y x = master_loss sc y x
        \<and> master_owner_id (merge_layer_best_server cmap g sc sl) y x = master_owner_id sc y x)"
proof -
  have d: "decode cmap p = UNDEFINED_PATH_LOSS"
    using assms by (rule decode_absent_key)
  have a: "master_loss (merge_layer cmap g c l) y x = master_loss c y x
        \<and> master_rgba (merge_layer cmap g c l) y x = master_rgba c y x"
    if "pixel_from g l y x = Some p"
    using merge_layer_cell [of cmap g c l y x] that d
    by (simp add: cell_best_step)
  have b: "master_loss (merge_layer_redundancy cmap g oc l) y x = master_loss oc y x
        \<and> master_rgba (merge_layer_redundancy cmap g oc l) y x = master_rgba oc y x
        \<and> coverage_count (merge_layer_redundancy cmap g oc l) y x = coverage_count oc y x"
    if "pixel_from g l y x = Some p"
    using merge_layer_redundancy_cell [of cmap g oc l y x] that d
    by (simp add: cell_overlap_step UNDEFINED_PATH_LOSS_def VALID_THRESHOLD_DB_def)
  have c: "master_loss (merge_layer_best_server cmap g sc sl) y x = master_loss sc y x
        \<and> master_owner_id (merge_layer_best_server cmap g sc sl) y x = master_owner_id sc y x"
    if "pixel_from g sl y x = Some p"
    using merge_layer_best_server_cell [of cmap g sc sl y x] that d
    by (simp add: cell_server_step UNDEFINED_PATH_LOSS_def VALID_THRESHOLD_DB_def)
  from d a b c show ?thesis by blast
qed

lemma assign_servers_one:
  "assign_servers [solid_layer px] =
     [\<lparr>north = 1, south = 0, east = 1, west = 0, png = Some (solid_image 2 2 px),
       index = 1, display_color = (255, 0, 0)\<rparr>]"
  by (simp add: assign_servers_def solid_layer_def SERVER_PALETTE_def)

theorem absent_color_never_wins_witness:
  "key_of (7, 7, 7) \<notin> fst ` set example_lut
   \<and> pixel_from unit_geometry (solid_layer (7, 7, 7)) 0 0 = Some (7, 7, 7)
   \<and> pixel_from unit_geometry (hd (assign_servers [solid_layer (7, 7, 7)])) 0 0 = Some (7, 7, 7)
   \<and> decode example_lut (7, 7, 7) = 9999
   \<and> master_rgba (merge_layer example_lut unit_geometry empty_canvas (solid_layer (7, 7, 7))) 0 0
        = (0, 0, 0, 0)
   \<and> coverage_count (merge_layer_redundancy example_lut unit_geometry empty_overlap_canvas
        (solid_layer (7, 7, 7))) 0 0 = 0
   \<and> master_owner_id (merge_layer_best_server example_lut unit_geometry empty_server_canvas
        (hd (assign_servers [solid_layer (7, 7, 7)]))) 0 0 = 0"
proof -
  let ?l = "solid_layer (7, 7, 7)"
  let ?sl = "hd (assign_servers [solid_layer (7, 7, 7)])"
  have k: "key_of (7, 7, 7) \<notin> fst ` set example_lut"
    by (simp add: key_of_def example_lut_def)
  have p: "pixel_from unit_geometry ?l 0 0 = Some (7, 7, 7)"
    by (simp add: pixel_from_unit [OF unit_box_solid_layer])
  have "unit_box ?sl (7, 7, 7)"
    by (simp add: assign_servers_one unit_box_def)
  then have q: "pixel_from unit_geometry ?sl 0 0 = Some (7, 7, 7)"
    by (simp add: pixel_from_unit)
  from absent_color_never_wins [OF k, where g = unit_geometry and l = ?l and y = 0 and x = 0
      and c = empty_canvas and oc = empty_overlap_canvas and sl = ?sl
      and sc = empty_server_canvas] p q
  have "decode example_lut (7, 7, 7) = 9999
    \<and> master_rgba (merge_layer example_lut unit_geometry empty_canvas ?l) 0 0 = (0, 0, 0, 0)
    \<and> coverage_count (merge_layer_redundancy example_lut unit_geometry empty_overlap_canvas ?l) 0 0 = 0
    \<and> master_owner_id (merge_layer_best_server example_lut unit_geometry empty_server_canvas ?sl) 0 0 = 0"
    by (simp add: empty_canvas_def empty_overlap_canvas_def empty_server_canvas_def
        transparent_def UNDEFINED_PATH_LOSS_def)
  with k p q show ?thesis by simp
qed

lemma composite_redundancy_cell:
  assumes "composite_redundancy cmap layers = Inr (g, cf)"
  shows "(case foldl cell_overlap (UNDEFINED_PATH_LOSS, transparent, 0) (seen cmap g layers y x) of
            (v, vis, n) \<Rightarrow>
              master_loss cf y x = v \<and> coverage_count cf y x = n
              \<and> master_rgba cf y x = (if uint n < MIN_OVERLAP_COUNT then transparent else vis))"
proof -
  let ?c = "foldl (merge_layer_redundancy cmap g) empty_overlap_canvas layers"
  from assms have cf: "cf = overlap_filter ?c"
    by (auto simp: composite_redundancy_def split: sum.splits)
  have "(master_loss ?c y x, master_rgba ?c y x, coverage_count ?c y x) =
          foldl cell_overlap (UNDEFINED_PATH_LOSS, transparent, 0) (seen cmap g layers y x)"
    unfolding foldl_merge_layer_redundancy_cell by (simp add: empty_overlap_canvas_def)
  then show ?thesis
    by (auto simp: cf overlap_filter_def split: prod.splits)
qed

lemma composite_redundancy_count:
  assumes "composite_redundancy cmap layers = Inr (g, cf)"
  shows "coverage_count cf y x = word_of_nat (votes (seen cmap g layers y x))"
proof -
  obtain v vis n where f: "foldl cell_overlap (UNDEFINED_PATH_LOSS, transparent, 0)
      (seen cmap g layers y x) = (v, vis, n)"
    by (cases "foldl cell_overlap (UNDEFINED_PATH_LOSS, transparent, 0) (seen cmap g layers y x)") auto
  have "n = word_of_nat (votes (seen cmap g layers y x))"
    using foldl_cell_overlap_count [of UNDEFINED_PATH_LOSS transparent 0 "seen cmap g layers y x"]
    by (simp add: f)
  with composite_redundancy_cell [OF assms, of y x] f show ?thesis by simp
qed

lemma composite_redundancy_filter:
  assumes "composite_redundancy cmap layers = Inr (g, cf)"
    and "uint (coverage_count cf y x) < MIN_OVERLAP_COUNT"
  shows "master_rgba cf y x = transparent"
  using composite_redundancy_cell [OF assms(1), of y x] assms(2)
  by (auto split: prod.splits)



text \<open>
  C10. The overlap count is taken modulo 256 at every increment: a cell at which 256
  layers meet the threshold has the count 0 and is transparent in the result.
\<close>

theorem overlap_counter_wraps:
  "(pixel_from g l y x = Some p \<and> decode cmap p \<le> VALID_THRESHOLD_DB \<longrightarrow>
      unat (coverage_count (merge_layer_redundancy cmap g c l) y x) =
        (unat (coverage_count c y x) + 1) mod 256)
   \<and> (composite_redundancy cmap layers = Inr (g, cf) \<longrightarrow>
        unat (coverage_count cf y x) = votes (seen cmap g layers y x) mod 256
      \<and> (votes (seen cmap g layers y x) = 256 \<longrightarrow>
           coverage_count cf y x = 0 \<and> master_rgba cf y x = transparent))"
proof -
  have step: "unat (coverage_count (merge_layer_redundancy cmap g c l) y x) =
        (unat (coverage_count c y x) + 1) mod 256"
    if "pixel_from g l y x = Some p" and "decode cmap p \<le> VALID_THRESHOLD_DB"
  proof -
    have "coverage_count (merge_layer_redundancy cmap g c l) y x = coverage_count c y x + 1"
      using merge_layer_redundancy_cell [of cmap g c l y x] that
      by (auto simp: cell_overlap_step split: if_splits)
    then show ?thesis by (simp add: unat_word_ariths)
  qed
  have total: "unat (coverage_count cf y x) = votes (seen cmap g layers y x) mod 256"
    if "composite_redundancy cmap layers = Inr (g, cf)"
    by (simp add: composite_redundancy_count [OF that] unat_of_nat)
  have wrap: "coverage_count cf y x = 0 \<and> master_rgba cf y x = transparent"
    if c: "composite_redundancy cmap layers = Inr (g, cf)"
      and v: "votes (seen cmap g layers y x) = 256"
  proof -
    have z: "coverage_count cf y x = 0"
      by (simp add: composite_redundancy_count [OF c] v)
    then have "uint (coverage_count cf y x) < MIN_OVERLAP_COUNT"
      by (simp add: MIN_OVERLAP_COUNT_def)
    with z composite_redundancy_filter [OF c] show ?thesis by simp
  qed
  from step total wrap show ?thesis by blast
qed

theorem overlap_counter_wraps_witness:
  "composite_redundancy example_lut (replicate 256 (solid_layer (255, 0, 0))) =
     Inr (unit_geometry,
          overlap_filter (foldl (merge_layer_redundancy example_lut unit_geometry)
            empty_overlap_canvas (replicate 256 (solid_layer (255, 0, 0)))))
   \<and> votes (seen example_lut unit_geometry (replicate 256 (solid_layer (255, 0, 0))) 0 0) = 256
   \<and> coverage_count (overlap_filter (foldl (merge_layer_redundancy example_lut unit_geometry)
         empty_overlap_canvas (replicate 256 (solid_layer (255, 0, 0))))) 0 0 = 0
   \<and> master_rgba (overlap_filter (foldl (merge_layer_redundancy example_lut unit_geometry)
         empty_overlap_canvas (replicate 256 (solid_layer (255, 0, 0))))) 0 0 = (0, 0, 0, 0)"
proof -
  let ?l = "solid_layer (255, 0, 0)"
  let ?ls = "replicate 256 ?l"
  let ?cf = "overlap_filter (foldl (merge_layer_redundancy example_lut unit_geometry)
               empty_overlap_canvas ?ls)"
  have "compute_geometry ?ls = Inr unit_geometry"
    by (rule compute_geometry_unit) (auto intro: unit_box_solid_layer)
  then have c: "composite_redundancy example_lut ?ls = Inr (unit_geometry, ?cf)"
    by (simp add: composite_redundancy_def)
  have "seen example_lut unit_geometry ?ls 0 0 =
          map (\<lambda>l. (decode example_lut (255, 0, 0), (255, 0, 0), l)) ?ls"
    by (rule seen_unit) (auto intro: unit_box_solid_layer)
  then have v: "votes (seen example_lut unit_geometry ?ls 0 0) = 256"
    by (simp add: votes_def decode_example_lut VALID_THRESHOLD_DB_def)
  from overlap_counter_wraps [where g = unit_geometry and cmap = example_lut
      and layers = ?ls and cf = ?cf and y = 0 and x = 0 and l = ?l and p = "(255, 0, 0)"
      and c = empty_overlap_canvas] c v
  have "coverage_count ?cf 0 0 = 0 \<and> master_rgba ?cf 0 0 = (0, 0, 0, 0)"
    by (simp add: transparent_def)
  with c v show ?thesis by simp
qed




section \<open>Canvas size and the single layer\<close>












end
